theory Spec2Isabelle
  imports Main "HOL-Library.Word"
begin

section \<open>Data acquisition layer of the disease dashboard (src/app.py)\<close>

text \<open>
  The three fetch functions of \<^verbatim>\<open>app.py\<close> are embedded as pure functions of the
  network they talk to. The network is a function from the requested URL to the outcome
  of the GET; the pandas steps are written out on lists of rows, a missing cell
  (\<^verbatim>\<open>NaN\<close>, \<^verbatim>\<open>None\<close>, \<^verbatim>\<open>NaT\<close>) being \<open>None\<close>. Every exception the source can raise is a
  value \<open>Inl e\<close> of the result.

  A decoded JSON body is an array of objects, of which the four keys the program reads are
  kept. A count is a JSON integer that fits \<^verbatim>\<open>int64\<close>: larger integers make pandas build
  \<^verbatim>\<open>uint64\<close> or object columns, which are not modelled. Within that, the arithmetic is the
  one of the column types: \<^verbatim>\<open>int64\<close> arithmetic wraps around, \<^verbatim>\<open>float64\<close> arithmetic rounds to
  53 significant bits.
\<close>

subsection \<open>JSON payloads and HTTP outcomes\<close>

text \<open>A key of a JSON object is absent, present with \<^verbatim>\<open>null\<close>, or present with a value.\<close>

datatype 'a field = Absent | Null | Val 'a

fun present :: "'a field \<Rightarrow> bool" where
  "present Absent = False"
| "present Null = True"
| "present (Val v) = True"

fun is_val :: "'a field \<Rightarrow> bool" where
  "is_val (Val v) = True"
| "is_val Absent = False"
| "is_val Null = False"

fun is_null :: "'a field \<Rightarrow> bool" where
  "is_null Null = True"
| "is_null Absent = False"
| "is_null (Val v) = False"

text \<open>The cell that \<^verbatim>\<open>pd.DataFrame\<close> builds from a key: missing unless there is a value.\<close>

fun cell :: "'a field \<Rightarrow> 'a option" where
  "cell Absent = None"
| "cell Null = None"
| "cell (Val v) = Some v"

record json_obj =
  j_state :: "string field"
  j_date :: "string field"
  j_cases :: "64 word field"
  j_deaths :: "64 word field"

datatype error =
    RequestException
  | HTTPError nat
  | JSONDecodeError
  | KeyError "string list"
  | ValueError
  | TypeError
  | DateParseError string

text \<open>
  A response carries its status code and its body, \<open>None\<close> when the body does not decode
  as JSON. A GET that times out or cannot connect delivers no response.
\<close>

datatype response = Response nat "json_obj list option"

datatype http_result = NoResponse | Got response

type_synonym network = "string \<Rightarrow> http_result"

definition and_then :: "error + 'a \<Rightarrow> ('a \<Rightarrow> error + 'b) \<Rightarrow> error + 'b" where
  "and_then m f = (case m of Inl e \<Rightarrow> Inl e | Inr x \<Rightarrow> f x)"

text \<open>\<^verbatim>\<open>requests.get(url, timeout=30)\<close>\<close>

definition requests_get :: "network \<Rightarrow> string \<Rightarrow> error + response" where
  "requests_get net url = (case net url of NoResponse \<Rightarrow> Inl RequestException | Got r \<Rightarrow> Inr r)"

text \<open>\<^verbatim>\<open>r.raise_for_status()\<close>: the library raises for the client and server error codes.\<close>

fun raise_for_status :: "response \<Rightarrow> error + unit" where
  "raise_for_status (Response status b) =
     (if 400 \<le> status \<and> status < 600 then Inl (HTTPError status) else Inr ())"

text \<open>\<^verbatim>\<open>r.json()\<close>\<close>

fun json :: "response \<Rightarrow> error + json_obj list" where
  "json (Response status None) = Inl JSONDecodeError"
| "json (Response status (Some data)) = Inr data"

text \<open>
  A column of the frame built from an array of objects exists when some object has the
  key; selecting columns that do not all exist raises \<^verbatim>\<open>KeyError\<close> with the missing ones.
\<close>

definition has_column :: "(json_obj \<Rightarrow> 'a field) \<Rightarrow> json_obj list \<Rightarrow> bool" where
  "has_column key data = list_ex (\<lambda>obj. present (key obj)) data"

subsection \<open>Column types and their arithmetic\<close>

text \<open>
  The type pandas infers for a column of the frame. A column of counts is \<^verbatim>\<open>int64\<close> when
  every object gives an integer, an object column of \<^verbatim>\<open>None\<close> when every object gives
  \<^verbatim>\<open>null\<close>, and \<^verbatim>\<open>float64\<close> otherwise (integers beside missing cells, or \<^verbatim>\<open>null\<close> beside an
  absent key). A column of strings is an object column unless it holds no string and some
  object lacks the key, when it is a \<^verbatim>\<open>float64\<close> column of \<^verbatim>\<open>NaN\<close>.
\<close>

datatype dtype = Int64 | Float64 | Object

definition dtype_of :: "(json_obj \<Rightarrow> 'a field) \<Rightarrow> json_obj list \<Rightarrow> dtype" where
  "dtype_of key data =
     (if list_all (\<lambda>obj. is_val (key obj)) data then Int64
      else if list_all (\<lambda>obj. is_null (key obj)) data then Object
      else Float64)"

definition str_dtype :: "(json_obj \<Rightarrow> string field) \<Rightarrow> json_obj list \<Rightarrow> dtype" where
  "str_dtype key data =
     (if list_ex (\<lambda>obj. is_val (key obj)) data \<or> list_all (\<lambda>obj. is_null (key obj)) data
      then Object else Float64)"

text \<open>\<^verbatim>\<open>int64\<close> arithmetic keeps the low 64 bits of the result.\<close>

definition wrap64 :: "int \<Rightarrow> int" where
  "wrap64 n = (n + 9223372036854775808) mod 18446744073709551616 - 9223372036854775808"

text \<open>
  The \<^verbatim>\<open>float64\<close> nearest to an integer, ties going to the even significand: \<open>excess m\<close> is
  the number of low bits of \<open>m\<close> that do not fit the 53 bits of the significand. (Below
  \<open>2 ^ 1024\<close>, which the differences of \<^verbatim>\<open>int64\<close> values never reach.)
\<close>

function excess :: "nat \<Rightarrow> nat" where
  "excess m = (if m < 9007199254740992 then 0 else Suc (excess (m div 2)))"
  by pat_completeness auto
termination
  by (relation "measure id") auto

declare excess.simps [simp del]

definition f64 :: "int \<Rightarrow> int" where
  "f64 n = (let m = nat \<bar>n\<bar>; e = excess m; q = m div 2 ^ e; r = m mod 2 ^ e;
                up = (2 ^ e < 2 * r \<or> (2 * r = 2 ^ e \<and> odd q))
            in sgn n * int ((if up then q + 1 else q) * 2 ^ e))"

text \<open>
  A number in a cell: an \<^verbatim>\<open>int64\<close>, or a \<^verbatim>\<open>float64\<close> whose value is an integer (all the
  program ever computes from integer counts).
\<close>

datatype num = I64 int | F64 int

fun val :: "num \<Rightarrow> int" where
  "val (I64 n) = n"
| "val (F64 v) = v"

fun to_float :: "num \<Rightarrow> int" where
  "to_float (I64 n) = f64 n"
| "to_float (F64 v) = v"

fun as_float :: "num \<Rightarrow> num" where
  "as_float (I64 n) = F64 (f64 n)"
| "as_float (F64 v) = F64 v"

text \<open>The cell of a count column of the given type.\<close>

fun num_cell :: "dtype \<Rightarrow> 64 word field \<Rightarrow> num option" where
  "num_cell Int64 (Val w) = Some (I64 (sint w))"
| "num_cell Float64 (Val w) = Some (F64 (f64 (sint w)))"
| "num_cell dt f = None"

text \<open>
  Column arithmetic, cell by cell. Two \<^verbatim>\<open>int64\<close> columns subtract in \<^verbatim>\<open>int64\<close>; otherwise the
  operands are taken to \<^verbatim>\<open>float64\<close> and a missing operand gives a missing difference (an
  object column of \<^verbatim>\<open>None\<close> takes part in no subtraction: pandas computes the cells where
  both operands are present).
\<close>

fun sub :: "num option \<Rightarrow> num option \<Rightarrow> num option" where
  "sub (Some (I64 a)) (Some (I64 b)) = Some (I64 (wrap64 (a - b)))"
| "sub (Some x) (Some y) = Some (F64 (f64 (to_float x - to_float y)))"
| "sub a b = None"

fun fillna :: "int \<Rightarrow> num option \<Rightarrow> num" where
  "fillna v None = F64 v"
| "fillna v (Some x) = x"

text \<open>
  \<^verbatim>\<open>.astype("int64")\<close>, \<^verbatim>\<open>.astype(int)\<close>: nothing to do on \<^verbatim>\<open>int64\<close>; a \<^verbatim>\<open>float64\<close> outside the
  range of \<^verbatim>\<open>int64\<close> is cast to the most negative \<^verbatim>\<open>int64\<close>, which is what the conversion
  gives on x86-64.
\<close>

fun astype_int64 :: "num \<Rightarrow> num" where
  "astype_int64 (I64 n) = I64 n"
| "astype_int64 (F64 v) =
     I64 (if - 9223372036854775808 \<le> v \<and> v < 9223372036854775808 then v
          else - 9223372036854775808)"

fun clip_lower :: "int \<Rightarrow> num \<Rightarrow> num" where
  "clip_lower lo (I64 n) = I64 (max lo n)"
| "clip_lower lo (F64 v) = F64 (max lo v)"

subsection \<open>Region code table\<close>

definition USPS :: "(string \<times> string) list" where
  "USPS = [
    (''Alabama'', ''AL''), (''Alaska'', ''AK''), (''Arizona'', ''AZ''), (''Arkansas'', ''AR''),
    (''California'', ''CA''), (''Colorado'', ''CO''), (''Connecticut'', ''CT''),
    (''Delaware'', ''DE''), (''District of Columbia'', ''DC''), (''Florida'', ''FL''),
    (''Georgia'', ''GA''), (''Hawaii'', ''HI''), (''Idaho'', ''ID''), (''Illinois'', ''IL''),
    (''Indiana'', ''IN''), (''Iowa'', ''IA''), (''Kansas'', ''KS''), (''Kentucky'', ''KY''),
    (''Louisiana'', ''LA''), (''Maine'', ''ME''), (''Maryland'', ''MD''),
    (''Massachusetts'', ''MA''),
    (''Michigan'', ''MI''), (''Minnesota'', ''MN''), (''Mississippi'', ''MS''),
    (''Missouri'', ''MO''), (''Montana'', ''MT''), (''Nebraska'', ''NE''), (''Nevada'', ''NV''),
    (''New Hampshire'', ''NH''), (''New Jersey'', ''NJ''), (''New Mexico'', ''NM''),
    (''New York'', ''NY''), (''North Carolina'', ''NC''), (''North Dakota'', ''ND''),
    (''Ohio'', ''OH''), (''Oklahoma'', ''OK''), (''Oregon'', ''OR''), (''Pennsylvania'', ''PA''),
    (''Rhode Island'', ''RI''), (''South Carolina'', ''SC''), (''South Dakota'', ''SD''),
    (''Tennessee'', ''TN''), (''Texas'', ''TX''), (''Utah'', ''UT''), (''Vermont'', ''VT''),
    (''Virginia'', ''VA''), (''Washington'', ''WA''), (''West Virginia'', ''WV''),
    (''Wisconsin'', ''WI''),
    (''Wyoming'', ''WY'')]"

text \<open>Looking a name up in the dict, as \<^verbatim>\<open>Series.map(USPS)\<close> does for each cell.\<close>

definition USPS_get :: "string \<Rightarrow> string option" where
  "USPS_get name = map_of USPS name"

text \<open>The table read from code to name.\<close>

definition USPS_name_of :: "string \<Rightarrow> string option" where
  "USPS_name_of code = map_of (map (\<lambda>(name, c). (c, name)) USPS) code"

subsection \<open>Snapshot fetcher\<close>

definition url_today :: string where
  "url_today = ''https://disease.sh/v3/covid-19/states?allowNull=true''"

definition url_yest :: string where
  "url_yest = ''https://disease.sh/v3/covid-19/states?yesterday=true&allowNull=true''"

text \<open>
  \<^verbatim>\<open>frame[keep_cols]\<close> followed by the renaming of the two count columns: a row of the result
  is (state, cases, deaths), the counts as cells of their column's type. The frame is kept
  with the type of its \<^verbatim>\<open>state\<close> column.
\<close>

type_synonym row3 = "string option \<times> num option \<times> num option"

definition three_cols :: "json_obj list \<Rightarrow> row3 list" where
  "three_cols data =
     map (\<lambda>obj. (cell (j_state obj),
                 num_cell (dtype_of j_cases data) (j_cases obj),
                 num_cell (dtype_of j_deaths data) (j_deaths obj))) data"

definition keep_cols :: "json_obj list \<Rightarrow> error + dtype \<times> row3 list" where
  "keep_cols data =
     (let missing = (if has_column j_state data then [] else [''state''])
                  @ (if has_column j_cases data then [] else [''cases''])
                  @ (if has_column j_deaths data then [] else [''deaths''])
      in if missing = [] then Inr (str_dtype j_state data, three_cols data)
         else Inl (KeyError missing))"

record snapshot_row =
  state :: "string option"
  cases_today :: "num option"
  deaths_today :: "num option"
  cases_yest :: "num option"
  deaths_yest :: "num option"
  todayCases :: int
  todayDeaths :: int
  state_code :: "string option"

text \<open>
  \<^verbatim>\<open>today.merge(yest, on="state", how="left")\<close>: the rows of \<open>today\<close> in their order, each
  paired with every row of \<open>yest\<close> of the same key, or with missing cells when there is
  none. When some row of \<open>today\<close> finds no partner, the columns taken from \<open>yest\<close> must hold
  \<^verbatim>\<open>NaN\<close> and their \<^verbatim>\<open>int64\<close> cells become \<^verbatim>\<open>float64\<close>. Key columns of different types (strings
  on one side, a \<^verbatim>\<open>float64\<close> column of \<^verbatim>\<open>NaN\<close> on the other) are refused with \<^verbatim>\<open>ValueError\<close>.
  The two derived columns and the code are filled in by the steps that follow.
\<close>

definition unmatched :: "row3 list \<Rightarrow> row3 list \<Rightarrow> bool" where
  "unmatched today yest =
     list_ex (\<lambda>(s, c, d). \<not> list_ex (\<lambda>(s', c', d'). s' = s) yest) today"

definition promote :: "bool \<Rightarrow> num option \<Rightarrow> num option" where
  "promote u c = (if u then map_option as_float c else c)"

fun merge_row :: "bool \<Rightarrow> row3 list \<Rightarrow> row3 \<Rightarrow> snapshot_row list" where
  "merge_row u yest (s, c, d) =
     (let ms = filter (\<lambda>(s', c', d'). s' = s) yest in
      if ms = []
      then [\<lparr>state = s, cases_today = c, deaths_today = d,
              cases_yest = None, deaths_yest = None,
              todayCases = 0, todayDeaths = 0, state_code = None\<rparr>]
      else map (\<lambda>(s', c', d').
              \<lparr>state = s, cases_today = c, deaths_today = d,
               cases_yest = promote u c', deaths_yest = promote u d',
               todayCases = 0, todayDeaths = 0, state_code = None\<rparr>) ms)"

definition merge_left :: "dtype \<times> row3 list \<Rightarrow> dtype \<times> row3 list \<Rightarrow> error + snapshot_row list" where
  "merge_left today yest =
     (if fst today \<noteq> fst yest then Inl ValueError
      else Inr (concat (map (merge_row (unmatched (snd today) (snd yest)) (snd yest)) (snd today))))"

definition with_deltas :: "snapshot_row \<Rightarrow> snapshot_row" where
  "with_deltas r =
     r\<lparr>todayCases :=
         val (clip_lower 0 (astype_int64 (fillna 0 (sub (cases_today r) (cases_yest r))))),
       todayDeaths :=
         val (clip_lower 0 (astype_int64 (fillna 0 (sub (deaths_today r) (deaths_yest r)))))\<rparr>"

definition with_state_code :: "snapshot_row \<Rightarrow> snapshot_row" where
  "with_state_code r =
     r\<lparr>state_code := (case state r of None \<Rightarrow> None | Some name \<Rightarrow> USPS_get name)\<rparr>"

definition notna :: "'a option \<Rightarrow> bool" where
  "notna c = (case c of None \<Rightarrow> False | Some v \<Rightarrow> True)"

definition fetch_states_snapshot :: "network \<Rightarrow> error + snapshot_row list" where
  "fetch_states_snapshot net =
     and_then (requests_get net url_today) (\<lambda>r1.
     and_then (raise_for_status r1) (\<lambda>u1.
     and_then (json r1) (\<lambda>today.
     and_then (requests_get net url_yest) (\<lambda>r2.
     and_then (raise_for_status r2) (\<lambda>u2.
     and_then (json r2) (\<lambda>yest.
     and_then (keep_cols today) (\<lambda>today'.
     and_then (keep_cols yest) (\<lambda>yest'.
     and_then (merge_left today' yest') (\<lambda>df.
       Inr (filter (\<lambda>r. notna (state_code r))
             (map with_state_code (map with_deltas df))))))))))))"

subsection \<open>Time-series fetchers\<close>

text \<open>\<^verbatim>\<open>str(days)\<close> inside the f-strings that build the URLs.\<close>

fun str_nat :: "nat \<Rightarrow> string" where
  "str_nat n =
     (if n < 10 then [char_of (48 + n)] else str_nat (n div 10) @ [char_of (48 + n mod 10)])"

declare str_nat.simps [simp del]

definition str_int :: "int \<Rightarrow> string" where
  "str_int i = (if i < 0 then CHR ''-'' # str_nat (nat (- i)) else str_nat (nat i))"

definition national_url :: "int \<Rightarrow> string" where
  "national_url days = ''https://disease.sh/v3/covid-19/nyt/usa?lastdays='' @ str_int days"

definition state_url :: "string \<Rightarrow> int \<Rightarrow> string" where
  "state_url state_name days =
     ''https://disease.sh/v3/covid-19/nyt/states/'' @ state_name @ ''?lastdays='' @ str_int days"

text \<open>
  \<^verbatim>\<open>df[name]\<close> for one column of the frame built from the payload: the cells of a column of
  strings, and the type and cells of a column of counts.
\<close>

definition getitem ::
  "(json_obj \<Rightarrow> 'a field) \<Rightarrow> string \<Rightarrow> json_obj list \<Rightarrow> error + 'a option list" where
  "getitem key name data =
     (if has_column key data then Inr (map (\<lambda>obj. cell (key obj)) data)
      else Inl (KeyError [name]))"

definition getitem_num ::
  "(json_obj \<Rightarrow> 64 word field) \<Rightarrow> string \<Rightarrow> json_obj list \<Rightarrow> error + dtype \<times> num option list" where
  "getitem_num key name data =
     (if has_column key data
      then Inr (dtype_of key data, map (\<lambda>obj. num_cell (dtype_of key data) (key obj)) data)
      else Inl (KeyError [name]))"

text \<open>
  \<^verbatim>\<open>pd.to_datetime\<close> over a column. The parser of one date string belongs to pandas and is
  a parameter: \<open>None\<close> where it rejects the string, \<open>Some None\<close> where it reads the string as
  \<^verbatim>\<open>NaT\<close> (as it does the empty string), \<open>Some (Some t)\<close> where it reads a time. A missing
  cell becomes \<^verbatim>\<open>NaT\<close>. The first string that is rejected raises.
\<close>

fun to_datetime ::
  "(string \<Rightarrow> 'ts option option) \<Rightarrow> string option list \<Rightarrow> error + 'ts option list" where
  "to_datetime parse [] = Inr []"
| "to_datetime parse (None # cs) =
     and_then (to_datetime parse cs) (\<lambda>ds. Inr (None # ds))"
| "to_datetime parse (Some s # cs) =
     (case parse s of
        None \<Rightarrow> Inl (DateParseError s)
      | Some d \<Rightarrow> and_then (to_datetime parse cs) (\<lambda>ds. Inr (d # ds)))"

text \<open>
  \<^verbatim>\<open>df.sort_values("date")\<close>: ascending, \<^verbatim>\<open>NaT\<close> last. The order pandas leaves among rows of
  equal date is not fixed by its default sort; the model keeps them in payload order, and
  no property below depends on it.
\<close>

fun date_le :: "'ts::linorder option \<Rightarrow> 'ts option \<Rightarrow> bool" where
  "date_le a None = True"
| "date_le None (Some b) = False"
| "date_le (Some a) (Some b) = (a \<le> b)"

fun insort_date :: "('ts::linorder option \<times> 'a) \<Rightarrow> ('ts option \<times> 'a) list \<Rightarrow> ('ts option \<times> 'a) list" where
  "insort_date x [] = [x]"
| "insort_date x (y # ys) =
     (if date_le (fst x) (fst y) then x # y # ys else y # insort_date x ys)"

fun sort_values :: "('ts::linorder option \<times> 'a) list \<Rightarrow> ('ts option \<times> 'a) list" where
  "sort_values [] = []"
| "sort_values (x # xs) = insort_date x (sort_values xs)"

text \<open>
  \<^verbatim>\<open>Series.diff()\<close>: the first cell is missing, every other is the cell minus the one before,
  as a \<^verbatim>\<open>float64\<close>. On an \<^verbatim>\<open>int64\<close> column the difference is taken in \<^verbatim>\<open>int64\<close> and then
  converted. On an object column of \<^verbatim>\<open>None\<close> the subtraction of two cells raises \<^verbatim>\<open>TypeError\<close>;
  a column of one cell has nothing to subtract.
\<close>

fun diff_cell :: "num option \<Rightarrow> num option \<Rightarrow> num option" where
  "diff_cell (Some (I64 a)) (Some (I64 b)) = Some (F64 (f64 (wrap64 (a - b))))"
| "diff_cell (Some x) (Some y) = Some (F64 (f64 (to_float x - to_float y)))"
| "diff_cell a b = None"

fun diff_from :: "num option \<Rightarrow> num option list \<Rightarrow> num option list" where
  "diff_from prev [] = []"
| "diff_from prev (c # cs) = diff_cell c prev # diff_from c cs"

fun diff :: "dtype \<times> num option list \<Rightarrow> error + num option list" where
  "diff (dt, []) = Inr []"
| "diff (dt, c # cs) =
     (if dt = Object \<and> cs \<noteq> [] then Inl TypeError else Inr (None # diff_from c cs))"

record 'ts ts_row =
  date :: "'ts option"
  cases :: "num option"
  new_cases :: int

definition fetch_national_timeseries ::
  "(string \<Rightarrow> 'ts option option) \<Rightarrow> network \<Rightarrow> int \<Rightarrow> error + ('ts::linorder) ts_row list" where
  "fetch_national_timeseries parse net days =
     and_then (requests_get net (national_url days)) (\<lambda>r.
     and_then (raise_for_status r) (\<lambda>u.
     and_then (json r) (\<lambda>data.
     and_then (getitem j_date ''date'' data) (\<lambda>date_col.
     and_then (to_datetime parse date_col) (\<lambda>parsed.
     let df = sort_values (zip parsed data) in
     and_then (getitem_num j_cases ''cases'' (map snd df)) (\<lambda>cases_col.
     and_then (diff cases_col) (\<lambda>d.
     let new = map (\<lambda>v. val (astype_int64 (clip_lower 0 (fillna 0 v)))) d in
     Inr (map (\<lambda>((d, c), n). \<lparr>date = d, cases = c, new_cases = n\<rparr>)
            (zip (zip (map fst df) (snd cases_col)) new)))))))))"

definition fetch_state_timeseries ::
  "(string \<Rightarrow> 'ts option option) \<Rightarrow> network \<Rightarrow> string \<Rightarrow> int \<Rightarrow> error + ('ts::linorder) ts_row list" where
  "fetch_state_timeseries parse net state_name days =
     and_then (requests_get net (state_url state_name days)) (\<lambda>r.
     and_then (raise_for_status r) (\<lambda>u.
     and_then (json r) (\<lambda>data.
     and_then (getitem j_date ''date'' data) (\<lambda>date_col.
     and_then (to_datetime parse date_col) (\<lambda>parsed.
     let df = sort_values (zip parsed data) in
     and_then (getitem_num j_cases ''cases'' (map snd df)) (\<lambda>cases_col.
     and_then (diff cases_col) (\<lambda>d.
     let new = map (\<lambda>v. val (astype_int64 (clip_lower 0 (fillna 0 v)))) d in
     Inr (map (\<lambda>((d, c), n). \<lparr>date = d, cases = c, new_cases = n\<rparr>)
            (zip (zip (map fst df) (snd cases_col)) new)))))))))"

text \<open>
  What a time-series fetcher computes from the outcome of its GET. The two fetchers are
  shown below to be this function of the outcome at their own URL.
\<close>

definition timeseries_of ::
  "(string \<Rightarrow> 'ts option option) \<Rightarrow> http_result \<Rightarrow> error + ('ts::linorder) ts_row list" where
  "timeseries_of parse res =
     and_then (case res of NoResponse \<Rightarrow> Inl RequestException | Got r \<Rightarrow> Inr r) (\<lambda>r.
     and_then (raise_for_status r) (\<lambda>u.
     and_then (json r) (\<lambda>data.
     and_then (getitem j_date ''date'' data) (\<lambda>date_col.
     and_then (to_datetime parse date_col) (\<lambda>parsed.
     let df = sort_values (zip parsed data) in
     and_then (getitem_num j_cases ''cases'' (map snd df)) (\<lambda>cases_col.
     and_then (diff cases_col) (\<lambda>d.
     let new = map (\<lambda>v. val (astype_int64 (clip_lower 0 (fillna 0 v)))) d in
     Inr (map (\<lambda>((d, c), n). \<lparr>date = d, cases = c, new_cases = n\<rparr>)
            (zip (zip (map fst df) (snd cases_col)) new)))))))))"

subsection \<open>Sample inputs\<close>

text \<open>
  A network that gives the same outcome to every request, one that tells the request for
  the current period from any other, and a parser for the \<^verbatim>\<open>YYYY-MM-DD\<close> strings the source
  emits, which reads a date as the number \<^verbatim>\<open>YYYYMMDD\<close> and the empty string as \<^verbatim>\<open>NaT\<close>. They
  serve to run the fetchers on concrete payloads.
\<close>

definition always :: "http_result \<Rightarrow> network" where
  "always res url = res"

definition two_answers :: "http_result \<Rightarrow> http_result \<Rightarrow> network" where
  "two_answers res_today res_yest url = (if url = url_today then res_today else res_yest)"

definition digit :: "char \<Rightarrow> nat option" where
  "digit c = (let n = (of_char c :: nat) in if 48 \<le> n \<and> n \<le> 57 then Some (n - 48) else None)"

fun number :: "nat \<Rightarrow> string \<Rightarrow> nat option" where
  "number acc [] = Some acc"
| "number acc (c # cs) = (case digit c of None \<Rightarrow> None | Some v \<Rightarrow> number (10 * acc + v) cs)"

definition iso_date :: "string \<Rightarrow> nat option option" where
  "iso_date s =
     (if s = [] then Some None
      else if length s = 10 \<and> s ! 4 = CHR ''-'' \<and> s ! 7 = CHR ''-'' then
        (case (number 0 (take 4 s), number 0 (take 2 (drop 5 s)), number 0 (drop 8 s)) of
           (Some y, Some m, Some d) \<Rightarrow>
             if 1 \<le> m \<and> m \<le> 12 \<and> 1 \<le> d \<and> d \<le> 31
             then Some (Some (10000 * y + 100 * m + d)) else None
         | _ \<Rightarrow> None)
      else None)"

definition obj_state :: "string \<Rightarrow> 64 word field \<Rightarrow> 64 word field \<Rightarrow> json_obj" where
  "obj_state name c d = \<lparr>j_state = Val name, j_date = Absent, j_cases = c, j_deaths = d\<rparr>"

definition obj_point :: "string \<Rightarrow> 64 word field \<Rightarrow> json_obj" where
  "obj_point day c = \<lparr>j_state = Absent, j_date = Val day, j_cases = c, j_deaths = Absent\<rparr>"

definition ok :: "json_obj list \<Rightarrow> http_result" where
  "ok data = Got (Response 200 (Some data))"

section \<open>Properties\<close>

subsection \<open>Exact arithmetic on small counts\<close>

lemma excess_small: "m < 9007199254740992 \<Longrightarrow> excess m = 0"
  by (subst excess.simps) simp

lemma excess_2p53: "excess 9007199254740992 = 1"
  by (subst excess.simps, simp)+

lemma f64_small: "\<bar>n\<bar> < 9007199254740992 \<Longrightarrow> f64 n = n"
  by (simp add: f64_def excess_small Let_def sgn_if)

lemma f64_exact: "\<bar>n\<bar> \<le> 9007199254740992 \<Longrightarrow> f64 n = n"
proof (cases "\<bar>n\<bar> < 9007199254740992")
  case True
  then show ?thesis by (rule f64_small)
next
  case False
  assume "\<bar>n\<bar> \<le> 9007199254740992"
  with False have "n = 9007199254740992 \<or> n = - 9007199254740992"
    by linarith
  then show ?thesis
    by (auto simp: f64_def excess_2p53 Let_def)
qed

lemma f64_above_2p53: "f64 9007199254740993 = 9007199254740992"
proof -
  have "excess 9007199254740993 = 1"
    by (subst excess.simps, simp)+
  then show ?thesis
    by (simp add: f64_def Let_def)
qed

lemma f64_max_int64: "f64 9223372036854775807 = 9223372036854775808"
proof -
  have "excess 9223372036854775807 = 10"
    by (subst excess.simps, simp)+
  then show ?thesis
    by (simp add: f64_def Let_def)
qed

lemma wrap64_exact:
  "- 9223372036854775808 \<le> n \<Longrightarrow> n < 9223372036854775808 \<Longrightarrow> wrap64 n = n"
  by (simp add: wrap64_def)

lemma to_float_exact: "\<bar>val x\<bar> \<le> 9007199254740992 \<Longrightarrow> to_float x = val x"
  by (cases x) (simp_all add: f64_exact)

lemma clip_nonneg: "0 \<le> val (clip_lower 0 x)"
  by (cases x) simp_all

lemma delta_missing:
  "a = None \<or> b = None \<Longrightarrow> val (clip_lower 0 (astype_int64 (fillna 0 (sub a b)))) = 0"
  by (cases a; cases b) auto

lemma sub_in_range:
  assumes "0 \<le> val x" "val x \<le> 9007199254740992" "0 \<le> val y" "val y \<le> 9007199254740992"
  shows "val (astype_int64 (fillna 0 (sub (Some x) (Some y)))) = val x - val y"
proof (cases "\<exists>a b. x = I64 a \<and> y = I64 b")
  case True
  then obtain a b where "x = I64 a" "y = I64 b" by blast
  with assms show ?thesis
    by (simp add: wrap64_exact)
next
  case False
  then have s: "sub (Some x) (Some y) = Some (F64 (f64 (to_float x - to_float y)))"
    by (cases x; cases y) simp_all
  have "to_float x = val x" "to_float y = val y"
    using assms by (simp_all add: to_float_exact)
  moreover have "f64 (val x - val y) = val x - val y"
    using assms by (intro f64_exact) simp
  ultimately show ?thesis
    using assms by (simp add: s)
qed

lemma delta_in_range:
  assumes "0 \<le> val x" "val x \<le> 9007199254740992" "0 \<le> val y" "val y \<le> 9007199254740992"
  shows "val (clip_lower 0 (astype_int64 (fillna 0 (sub (Some x) (Some y))))) = max 0 (val x - val y)"
proof -
  have "val (clip_lower 0 z) = max 0 (val z)" for z
    by (cases z) simp_all
  then show ?thesis
    by (simp only: sub_in_range [OF assms])
qed

subsection \<open>Region code table\<close>

lemma USPS_length: "length USPS = 51"
  by (simp add: USPS_def)

lemma USPS_names_distinct: "distinct (map fst USPS)"
  by (simp add: USPS_def)

lemma USPS_codes_distinct: "distinct (map snd USPS)"
  by (simp add: USPS_def)

subsection \<open>When the steps of a fetch succeed\<close>

lemma and_then_Inr: "and_then m f = Inr y \<longleftrightarrow> (\<exists>x. m = Inr x \<and> f x = Inr y)"
  by (cases m) (simp_all add: and_then_def)

lemma requests_get_Inr: "requests_get net url = Inr r \<longleftrightarrow> net url = Got r"
  by (simp add: requests_get_def split: http_result.splits)

lemma raise_for_status_Inr:
  "raise_for_status r = Inr u \<longleftrightarrow> (\<exists>s b. r = Response s b \<and> \<not> (400 \<le> s \<and> s < 600))"
  by (cases r) auto

lemma json_Inr: "json r = Inr d \<longleftrightarrow> (\<exists>s. r = Response s (Some d))"
  by (cases r rule: json.cases) auto

lemma keep_cols_Inr:
  "keep_cols data = Inr fr \<longleftrightarrow>
     has_column j_state data \<and> has_column j_cases data \<and> has_column j_deaths data \<and>
     fr = (str_dtype j_state data, three_cols data)"
  by (auto simp: keep_cols_def Let_def)

lemma merge_left_Inr:
  "merge_left today yest = Inr rows \<longleftrightarrow>
     fst today = fst yest \<and>
     rows = concat (map (merge_row (unmatched (snd today) (snd yest)) (snd yest)) (snd today))"
  by (auto simp: merge_left_def)

lemma fetch_states_snapshot_Inr:
  "fetch_states_snapshot net = Inr df \<longleftrightarrow>
     (\<exists>s1 today s2 yest t' y' rows.
        net url_today = Got (Response s1 (Some today)) \<and> \<not> (400 \<le> s1 \<and> s1 < 600) \<and>
        net url_yest = Got (Response s2 (Some yest)) \<and> \<not> (400 \<le> s2 \<and> s2 < 600) \<and>
        keep_cols today = Inr t' \<and> keep_cols yest = Inr y' \<and>
        merge_left t' y' = Inr rows \<and>
        df = filter (\<lambda>r. notna (state_code r)) (map with_state_code (map with_deltas rows)))"
  unfolding fetch_states_snapshot_def and_then_Inr requests_get_Inr raise_for_status_Inr json_Inr
  by (auto; blast?)

subsection \<open>Rows of the merged snapshot\<close>



lemma snapshot_rows:
  assumes "fetch_states_snapshot net = Inr df" and "r \<in> set df"
  shows "\<exists>s1 today s2 yest m.
           net url_today = Got (Response s1 (Some today)) \<and>
           net url_yest = Got (Response s2 (Some yest)) \<and>
           m \<in> set (concat (map (merge_row (unmatched (three_cols today) (three_cols yest))
                                  (three_cols yest)) (three_cols today))) \<and>
           r = with_state_code (with_deltas m) \<and> notna (state_code r)"
proof -
  from assms(1) obtain s1 today s2 yest rows where
    n: "net url_today = Got (Response s1 (Some today))" "net url_yest = Got (Response s2 (Some yest))"
    and rows: "rows = concat (map (merge_row (unmatched (three_cols today) (three_cols yest))
                                  (three_cols yest)) (three_cols today))"
    and df: "df = filter (\<lambda>r. notna (state_code r)) (map with_state_code (map with_deltas rows))"
    unfolding fetch_states_snapshot_Inr keep_cols_Inr merge_left_Inr by auto
  from assms(2) df obtain m where
    "m \<in> set rows" "r = with_state_code (with_deltas m)" "notna (state_code r)"
    by auto
  with n rows show ?thesis by blast
qed

text \<open>
  C1, as the code has it. In every row that \<^verbatim>\<open>fetch_states_snapshot\<close> returns, \<open>todayCases\<close>
  and \<open>todayDeaths\<close> are never negative; each is \<open>0\<close> when either of its two counts is
  missing, and \<open>max 0 (current - prior)\<close> when both counts are present and lie between \<open>0\<close>
  and \<open>2 ^ 53\<close>, the range in which the \<^verbatim>\<open>float64\<close> arithmetic of the columns is exact.
\<close>

theorem snapshot_deltas_clipped:
  assumes "fetch_states_snapshot net = Inr df" and "r \<in> set df"
  shows "0 \<le> todayCases r \<and> 0 \<le> todayDeaths r
       \<and> (cases_today r = None \<or> cases_yest r = None \<longrightarrow> todayCases r = 0)
       \<and> (deaths_today r = None \<or> deaths_yest r = None \<longrightarrow> todayDeaths r = 0)
       \<and> (\<forall>x y. cases_today r = Some x \<and> cases_yest r = Some y
              \<and> 0 \<le> val x \<and> val x \<le> 9007199254740992
              \<and> 0 \<le> val y \<and> val y \<le> 9007199254740992
            \<longrightarrow> todayCases r = max 0 (val x - val y))
       \<and> (\<forall>x y. deaths_today r = Some x \<and> deaths_yest r = Some y
              \<and> 0 \<le> val x \<and> val x \<le> 9007199254740992
              \<and> 0 \<le> val y \<and> val y \<le> 9007199254740992
            \<longrightarrow> todayDeaths r = max 0 (val x - val y))"
proof -
  from snapshot_rows [OF assms] obtain m where r: "r = with_state_code (with_deltas m)"
    by blast
  have c: "todayCases r = val (clip_lower 0 (astype_int64 (fillna 0
             (sub (cases_today r) (cases_yest r)))))"
    unfolding r by (simp add: with_state_code_def with_deltas_def)
  have d: "todayDeaths r = val (clip_lower 0 (astype_int64 (fillna 0
             (sub (deaths_today r) (deaths_yest r)))))"
    unfolding r by (simp add: with_state_code_def with_deltas_def)
  have "0 \<le> todayCases r" "0 \<le> todayDeaths r"
    unfolding c d by (rule clip_nonneg)+
  moreover have "todayCases r = 0" if "cases_today r = None \<or> cases_yest r = None"
    unfolding c using that by (rule delta_missing)
  moreover have "todayDeaths r = 0" if "deaths_today r = None \<or> deaths_yest r = None"
    unfolding d using that by (rule delta_missing)
  moreover have "todayCases r = max 0 (val x - val y)"
    if "cases_today r = Some x" "cases_yest r = Some y"
      "0 \<le> val x" "val x \<le> 9007199254740992" "0 \<le> val y" "val y \<le> 9007199254740992" for x y
    unfolding c that(1,2) using that(3-6) by (rule delta_in_range)
  moreover have "todayDeaths r = max 0 (val x - val y)"
    if "deaths_today r = Some x" "deaths_yest r = Some y"
      "0 \<le> val x" "val x \<le> 9007199254740992" "0 \<le> val y" "val y \<le> 9007199254740992" for x y
    unfolding d that(1,2) using that(3-6) by (rule delta_in_range)
  ultimately show ?thesis by blast
qed

text \<open>The definitions that evaluate the snapshot fetcher on a concrete network.\<close>

lemmas run_snapshot =
  fetch_states_snapshot_def and_then_def requests_get_def two_answers_def url_today_def
  url_yest_def ok_def keep_cols_def three_cols_def has_column_def dtype_of_def str_dtype_def
  obj_state_def merge_left_def unmatched_def promote_def with_deltas_def with_state_code_def
  USPS_get_def USPS_def notna_def Let_def wrap64_exact f64_exact f64_above_2p53

theorem snapshot_deltas_clipped_witness:
  "fetch_states_snapshot
     (two_answers (ok [obj_state ''Texas'' (Val 100) (Val 5)])
                  (ok [obj_state ''Texas'' (Val 120) (Val 4)]))
   = Inr [\<lparr>state = Some ''Texas'', cases_today = Some (I64 100), deaths_today = Some (I64 5),
            cases_yest = Some (I64 120), deaths_yest = Some (I64 4), todayCases = 0,
            todayDeaths = 1, state_code = Some ''TX''\<rparr>]"
proof -
  let ?net = "two_answers (ok [obj_state ''Texas'' (Val 100) (Val 5)])
                          (ok [obj_state ''Texas'' (Val 120) (Val 4)])"
  let ?r = "\<lparr>state = Some ''Texas'', cases_today = Some (I64 100), deaths_today = Some (I64 5),
            cases_yest = Some (I64 120), deaths_yest = Some (I64 4), todayCases = 0,
            todayDeaths = 1, state_code = Some ''TX''\<rparr>"
  have h1: "fetch_states_snapshot ?net = Inr [?r]"
    by (simp add: run_snapshot)
  have h2: "?r \<in> set [?r]" by simp
  from snapshot_deltas_clipped [OF h1 h2] have "todayDeaths ?r = max 0 (val (I64 5) - val (I64 4))"
    by simp
  then show ?thesis using h1 by simp
qed

text \<open>
  C1 as stated fails: with a current count of \<open>2 ^ 53 + 1\<close> in an \<^verbatim>\<open>int64\<close> column and a prior
  count of \<open>2 ^ 53\<close> in a column that holds a \<^verbatim>\<open>null\<close> elsewhere, hence \<^verbatim>\<open>float64\<close>, both counts
  are present and the subtraction, done in \<^verbatim>\<open>float64\<close>, gives \<open>todayCases = 0\<close>, not \<open>1\<close>.
\<close>

theorem snapshot_float_rounding_counterexample:
  "fetch_states_snapshot
     (two_answers (ok [obj_state ''Texas'' (Val 9007199254740993) (Val 5)])
                  (ok [obj_state ''Texas'' (Val 9007199254740992) (Val 5),
                       obj_state ''Utah'' Null (Val 1)]))
   = Inr [\<lparr>state = Some ''Texas'', cases_today = Some (I64 9007199254740993),
            deaths_today = Some (I64 5), cases_yest = Some (F64 9007199254740992),
            deaths_yest = Some (I64 5), todayCases = 0, todayDeaths = 0,
            state_code = Some ''TX''\<rparr>]
   \<and> max 0 (9007199254740993 - 9007199254740992) = (1 :: int)"
  by (simp add: run_snapshot)

text \<open>
  C3. Every row that \<^verbatim>\<open>fetch_states_snapshot\<close> returns carries a region name with an entry in
  \<open>USPS\<close> and that entry as its code; so a region whose name has no entry in the table
  appears in no returned row.
\<close>

theorem snapshot_only_coded_regions:
  assumes "fetch_states_snapshot net = Inr df"
  shows "(\<forall>r\<in>set df. \<exists>name code.
            state r = Some name \<and> USPS_get name = Some code \<and> state_code r = Some code)
       \<and> (\<forall>name. USPS_get name = None \<longrightarrow> (\<forall>r\<in>set df. state r \<noteq> Some name))"
proof -
  have coded: "\<exists>name code. state r = Some name \<and> USPS_get name = Some code \<and> state_code r = Some code"
    if "r \<in> set df" for r
  proof -
    from snapshot_rows [OF assms that] obtain m where
      r: "r = with_state_code (with_deltas m)" and n: "notna (state_code r)"
      by blast
    from n show ?thesis
      unfolding r
      by (cases "state m") (auto simp: with_state_code_def with_deltas_def notna_def split: option.splits)
  qed
  then show ?thesis by fastforce
qed

theorem snapshot_only_coded_regions_witness:
  "fetch_states_snapshot
     (two_answers (ok [obj_state ''Texas'' (Val 100) (Val 5), obj_state ''Guam'' (Val 9) (Val 1)])
                  (ok [obj_state ''Texas'' (Val 80) (Val 5), obj_state ''Guam'' (Val 8) (Val 1)]))
   = Inr [\<lparr>state = Some ''Texas'', cases_today = Some (I64 100), deaths_today = Some (I64 5),
            cases_yest = Some (I64 80), deaths_yest = Some (I64 5), todayCases = 20,
            todayDeaths = 0, state_code = Some ''TX''\<rparr>]
   \<and> USPS_get ''Guam'' = None \<and> USPS_get ''Texas'' = Some ''TX''"
proof -
  let ?net = "two_answers (ok [obj_state ''Texas'' (Val 100) (Val 5), obj_state ''Guam'' (Val 9) (Val 1)])
                  (ok [obj_state ''Texas'' (Val 80) (Val 5), obj_state ''Guam'' (Val 8) (Val 1)])"
  let ?r = "\<lparr>state = Some ''Texas'', cases_today = Some (I64 100), deaths_today = Some (I64 5),
            cases_yest = Some (I64 80), deaths_yest = Some (I64 5), todayCases = 20,
            todayDeaths = 0, state_code = Some ''TX''\<rparr>"
  have h: "fetch_states_snapshot ?net = Inr [?r]"
    by (simp add: run_snapshot)
  have g: "USPS_get ''Guam'' = None"
    by (simp add: USPS_get_def USPS_def)
  from snapshot_only_coded_regions [OF h] g have "\<forall>r\<in>set [?r]. state r \<noteq> Some ''Guam''"
    by blast
  moreover from snapshot_only_coded_regions [OF h] have "USPS_get ''Texas'' = Some ''TX''"
    by simp
  ultimately show ?thesis using h g by simp
qed

text \<open>
  C5, as the code has it. If either retrieval delivers no response, a status from 400 to 599
  or a body that does not decode, the whole call raises and returns no frame. The status
  check is the one of \<^verbatim>\<open>raise_for_status\<close>, which lets every status outside 400 to 599 pass.
\<close>

theorem snapshot_all_or_nothing:
  assumes "net url_today = NoResponse \<or> net url_yest = NoResponse
         \<or> (\<exists>s b. net url_today = Got (Response s b) \<and> 400 \<le> s \<and> s < 600)
         \<or> (\<exists>s b. net url_yest = Got (Response s b) \<and> 400 \<le> s \<and> s < 600)
         \<or> (\<exists>s. net url_today = Got (Response s None))
         \<or> (\<exists>s. net url_yest = Got (Response s None))"
  shows "\<exists>e. fetch_states_snapshot net = Inl e"
proof (cases "fetch_states_snapshot net")
  case (Inl e)
  then show ?thesis by blast
next
  case (Inr df)
  then obtain s1 today s2 yest where
    "net url_today = Got (Response s1 (Some today))" "\<not> (400 \<le> s1 \<and> s1 < 600)"
    "net url_yest = Got (Response s2 (Some yest))" "\<not> (400 \<le> s2 \<and> s2 < 600)"
    unfolding fetch_states_snapshot_Inr by blast
  with assms show ?thesis by auto
qed

theorem snapshot_all_or_nothing_witness:
  "fetch_states_snapshot
     (two_answers (ok [obj_state ''Texas'' (Val 100) (Val 5)]) (Got (Response 503 None)))
   = Inl (HTTPError 503)"
proof -
  let ?net = "two_answers (ok [obj_state ''Texas'' (Val 100) (Val 5)]) (Got (Response 503 None))"
  have u: "url_yest \<noteq> url_today"
    by (simp add: url_today_def url_yest_def)
  have "\<exists>s b. ?net url_yest = Got (Response s b) \<and> 400 \<le> s \<and> s < 600"
    using u by (simp add: two_answers_def)
  then have "\<exists>e. fetch_states_snapshot ?net = Inl e"
    using snapshot_all_or_nothing [of ?net] by blast
  then show ?thesis
    by (simp add: run_snapshot)
qed

text \<open>
  C5 as stated fails: a current-period response with status 300, which is not a 2xx status,
  and a decodable body is accepted, and the call returns a frame.
\<close>

theorem snapshot_redirect_status_counterexample:
  "fetch_states_snapshot
     (two_answers (Got (Response 300 (Some [obj_state ''Texas'' (Val 100) (Val 5)])))
                  (ok [obj_state ''Texas'' (Val 80) (Val 5)]))
   = Inr [\<lparr>state = Some ''Texas'', cases_today = Some (I64 100), deaths_today = Some (I64 5),
            cases_yest = Some (I64 80), deaths_yest = Some (I64 5), todayCases = 20,
            todayDeaths = 0, state_code = Some ''TX''\<rparr>]"
  by (simp add: run_snapshot)

subsection \<open>The region code table read both ways\<close>

lemma USPS_get_iff: "USPS_get name = Some code \<longleftrightarrow> (name, code) \<in> set USPS"
  unfolding USPS_get_def using USPS_names_distinct by (rule map_of_eq_Some_iff)

lemma USPS_name_of_iff: "USPS_name_of code = Some name \<longleftrightarrow> (name, code) \<in> set USPS"
proof -
  have eq: "map fst (map (\<lambda>(name, c). (c, name)) USPS) = map snd USPS"
    by (simp add: case_prod_beta comp_def)
  have "distinct (map fst (map (\<lambda>(name, c). (c, name)) USPS))"
    unfolding eq by (rule USPS_codes_distinct)
  then have "USPS_name_of code = Some name \<longleftrightarrow> (code, name) \<in> set (map (\<lambda>(name, c). (c, name)) USPS)"
    unfolding USPS_name_of_def by (rule map_of_eq_Some_iff)
  also have "\<dots> \<longleftrightarrow> (name, code) \<in> set USPS"
    by auto
  finally show ?thesis .
qed

lemma USPS_card: "card (dom USPS_get) = 51" "card (dom USPS_name_of) = 51"
proof -
  have "dom USPS_get = set (map fst USPS)"
    unfolding USPS_get_def by (simp add: dom_map_of_conv_image_fst)
  then show "card (dom USPS_get) = 51"
    using USPS_names_distinct USPS_length by (simp only: distinct_card length_map)
  have "dom USPS_name_of = set (map snd USPS)"
    by (force simp: dom_def USPS_name_of_iff image_iff)
  then show "card (dom USPS_name_of) = 51"
    using USPS_codes_distinct USPS_length by (simp only: distinct_card length_map)
qed

text \<open>
  C9. The table \<open>USPS\<close> has 51 entries with pairwise distinct names and pairwise distinct
  codes: distinct names map to distinct codes, and the lookup from code to name is defined
  on exactly the 51 codes and inverts the lookup from name to code.
\<close>

theorem USPS_injective:
  "length USPS = 51 \<and> distinct (map fst USPS) \<and> distinct (map snd USPS)
   \<and> (\<forall>n1 n2 code. USPS_get n1 = Some code \<and> USPS_get n2 = Some code \<longrightarrow> n1 = n2)
   \<and> (\<forall>name code. USPS_get name = Some code \<longleftrightarrow> USPS_name_of code = Some name)
   \<and> card (dom USPS_get) = 51 \<and> card (dom USPS_name_of) = 51"
proof -
  have rev: "USPS_get name = Some code \<longleftrightarrow> USPS_name_of code = Some name" for name code
    by (simp only: USPS_get_iff USPS_name_of_iff)
  have "n1 = n2" if "USPS_get n1 = Some code" "USPS_get n2 = Some code" for n1 n2 code
    using that unfolding rev by simp
  then show ?thesis
    using rev USPS_length USPS_names_distinct USPS_codes_distinct USPS_card by blast
qed

theorem USPS_injective_witness:
  "USPS_get ''Texas'' = Some ''TX'' \<and> USPS_name_of ''TX'' = Some ''Texas''
   \<and> USPS_get ''Utah'' = Some ''UT'' \<and> USPS_name_of ''UT'' = Some ''Utah''"
proof -
  have t: "USPS_get ''Texas'' = Some ''TX''"
    by (simp add: USPS_get_def USPS_def)
  have u: "USPS_get ''Utah'' = Some ''UT''"
    by (simp add: USPS_get_def USPS_def)
  from USPS_injective t have "USPS_name_of ''TX'' = Some ''Texas''"
    by blast
  moreover from USPS_injective u have "USPS_name_of ''UT'' = Some ''Utah''"
    by blast
  ultimately show ?thesis using t u by blast
qed

subsection \<open>The merge is a left outer join\<close>

lemma promote_value:
  "c = Some x \<Longrightarrow> \<bar>val x\<bar> \<le> 9007199254740992 \<Longrightarrow> map_option val (promote u c) = Some (val x)"
  by (cases x) (simp_all add: promote_def f64_exact)



subsection \<open>Steps of the time-series fetchers\<close>

lemma fetch_national_timeseries_eq:
  "fetch_national_timeseries parse net days = timeseries_of parse (net (national_url days))"
  by (simp add: fetch_national_timeseries_def timeseries_of_def requests_get_def)

lemma fetch_state_timeseries_eq:
  "fetch_state_timeseries parse net state_name days =
     timeseries_of parse (net (state_url state_name days))"
  by (simp add: fetch_state_timeseries_def timeseries_of_def requests_get_def)

lemma to_datetime_length: "to_datetime parse cs = Inr ds \<Longrightarrow> length ds = length cs"
proof (induction parse cs arbitrary: ds rule: to_datetime.induct)
  case (1 parse)
  then show ?case by simp
next
  case (2 parse cs)
  then show ?case by (auto simp: and_then_Inr)
next
  case (3 parse s cs)
  then show ?case by (auto simp: and_then_Inr split: option.splits)
qed


lemma length_insort_date: "length (insort_date x xs) = Suc (length xs)"
  by (induction xs) auto

lemma length_sort_values: "length (sort_values xs) = length xs"
  by (induction xs) (auto simp: length_insort_date)

lemma set_insort_date: "set (insort_date x xs) = insert x (set xs)"
  by (induction xs) auto

lemma set_sort_values: "set (sort_values xs) = set xs"
  by (induction xs) (auto simp: set_insort_date)

lemma date_le_total: "date_le a b \<or> date_le b a"
  by (cases a; cases b) auto

lemma date_le_trans: "date_le a b \<Longrightarrow> date_le b c \<Longrightarrow> date_le a c"
  by (cases a; cases b; cases c) auto

lemma sorted_insort_date:
  "sorted_wrt (\<lambda>x y. date_le (fst x) (fst y)) xs \<Longrightarrow>
   sorted_wrt (\<lambda>x y. date_le (fst x) (fst y)) (insort_date x xs)"
proof (induction xs)
  case Nil
  then show ?case by simp
next
  case (Cons y ys)
  show ?case
  proof (cases "date_le (fst x) (fst y)")
    case True
    with Cons.prems show ?thesis
      by (auto intro: date_le_trans)
  next
    case False
    then have "date_le (fst y) (fst x)"
      using date_le_total by blast
    with False Cons show ?thesis
      by (auto simp: set_insort_date)
  qed
qed

lemma sorted_sort_values: "sorted_wrt (\<lambda>x y. date_le (fst x) (fst y)) (sort_values xs)"
  by (induction xs) (auto intro: sorted_insort_date)

lemma length_diff_from: "length (diff_from p cs) = length cs"
  by (induction cs arbitrary: p) auto

lemma diff_length: "diff (dt, cs) = Inr d \<Longrightarrow> length d = length cs"
  by (cases cs) (auto simp: length_diff_from split: if_splits)

lemma diff_from_nth: "i < length cs \<Longrightarrow> diff_from p cs ! i = diff_cell (cs ! i) ((p # cs) ! i)"
proof (induction cs arbitrary: p i)
  case Nil
  then show ?case by simp
next
  case (Cons c cs)
  then show ?case by (cases i) auto
qed

lemma diff_nth_0: "diff (dt, cs) = Inr d \<Longrightarrow> cs \<noteq> [] \<Longrightarrow> d ! 0 = None"
  by (cases cs) (auto split: if_splits)

lemma diff_nth:
  assumes "diff (dt, cs) = Inr d" and "0 < i" and "i < length cs"
  shows "d ! i = diff_cell (cs ! i) (cs ! (i - 1))"
proof (cases cs)
  case Nil
  with assms(3) show ?thesis by simp
next
  case (Cons c cs')
  with assms(1) have d: "d = None # diff_from c cs'"
    by (auto split: if_splits)
  from assms(2,3) Cons obtain j where j: "i = Suc j" "j < length cs'"
    by (cases i) auto
  then show ?thesis
    using Cons d diff_from_nth [of j cs' c] by simp
qed


lemma getitem_Inr:
  "getitem key name data = Inr col \<longleftrightarrow> has_column key data \<and> col = map (\<lambda>obj. cell (key obj)) data"
  by (auto simp: getitem_def)

lemma getitem_num_Inr:
  "getitem_num key name data = Inr col \<longleftrightarrow>
     has_column key data \<and>
     col = (dtype_of key data, map (\<lambda>obj. num_cell (dtype_of key data) (key obj)) data)"
  by (auto simp: getitem_num_def)

lemma has_column_set: "set xs = set ys \<Longrightarrow> has_column key xs = has_column key ys"
  by (simp add: has_column_def list_ex_iff)

lemma dtype_of_set: "set xs = set ys \<Longrightarrow> dtype_of key xs = dtype_of key ys"
  by (simp add: dtype_of_def list_all_iff)

lemma rows_nth:
  "length ds = n \<Longrightarrow> length cs = n \<Longrightarrow> length ns = n \<Longrightarrow> i < n \<Longrightarrow>
   map (\<lambda>((d, c), k). \<lparr>date = d, cases = c, new_cases = k\<rparr>) (zip (zip ds cs) ns) ! i
     = \<lparr>date = ds ! i, cases = cs ! i, new_cases = ns ! i\<rparr>"
  by simp

lemma timeseries_of_Inr:
  assumes "timeseries_of parse res = Inr out"
  shows "\<exists>s data df d.
           res = Got (Response s (Some data)) \<and> \<not> (400 \<le> s \<and> s < 600) \<and>
           has_column j_date data \<and> has_column j_cases data \<and>
           length df = length data \<and> set (map snd df) = set data \<and>
           sorted_wrt (\<lambda>x y. date_le (fst x) (fst y)) df \<and>
           diff (dtype_of j_cases data,
                 map (\<lambda>x. num_cell (dtype_of j_cases data) (j_cases (snd x))) df) = Inr d \<and>
           length out = length data \<and>
           (\<forall>i<length out.
              out ! i = \<lparr>date = fst (df ! i),
                         cases = num_cell (dtype_of j_cases data) (j_cases (snd (df ! i))),
                         new_cases = val (astype_int64 (clip_lower 0 (fillna 0 (d ! i))))\<rparr>)"
proof -
  from assms obtain r u data date_col parsed cases_col d where
    r: "res = Got r" and u: "raise_for_status r = Inr u" and j: "json r = Inr data"
    and dc: "getitem j_date ''date'' data = Inr date_col"
    and p: "to_datetime parse date_col = Inr parsed"
    and cc: "getitem_num j_cases ''cases'' (map snd (sort_values (zip parsed data))) = Inr cases_col"
    and dd: "diff cases_col = Inr d"
    and out: "out = map (\<lambda>((d, c), n). \<lparr>date = d, cases = c, new_cases = n\<rparr>)
                (zip (zip (map fst (sort_values (zip parsed data))) (snd cases_col))
                  (map (\<lambda>v. val (astype_int64 (clip_lower 0 (fillna 0 v)))) d))"
    unfolding timeseries_of_def and_then_Inr Let_def
    by (auto split: http_result.splits)
  let ?df = "sort_values (zip parsed data)"
  let ?dt = "dtype_of j_cases data"
  from u j obtain s where s: "r = Response s (Some data)" "\<not> (400 \<le> s \<and> s < 600)"
    unfolding raise_for_status_Inr json_Inr by auto
  from dc have hd: "has_column j_date data" and dcol: "date_col = map (\<lambda>obj. cell (j_date obj)) data"
    unfolding getitem_Inr by auto
  from p have lp: "length parsed = length data"
    using to_datetime_length dcol by fastforce
  then have snd_zip: "map snd (zip parsed data) = data"
    by simp
  have ldf: "length ?df = length data"
    using lp by (simp add: length_sort_values)
  have sdf: "set (map snd ?df) = set data"
    using snd_zip by (metis set_map set_sort_values)
  from cc have hc': "has_column j_cases (map snd ?df)"
    and ccol': "cases_col = (dtype_of j_cases (map snd ?df),
                  map (\<lambda>obj. num_cell (dtype_of j_cases (map snd ?df)) (j_cases obj)) (map snd ?df))"
    unfolding getitem_num_Inr by auto
  from hc' have hc: "has_column j_cases data"
    by (simp only: has_column_set [OF sdf])
  have dt: "dtype_of j_cases (map snd ?df) = ?dt"
    using sdf by (rule dtype_of_set)
  have ccol: "cases_col = (?dt, map (\<lambda>x. num_cell ?dt (j_cases (snd x))) ?df)"
    unfolding ccol' dt by (simp add: comp_def)
  have lc: "length (snd cases_col) = length data"
    using ccol ldf by simp
  from dd have ld: "length d = length data"
    using diff_length [of "fst cases_col" "snd cases_col" d] lc by simp
  have lout: "length out = length data"
    unfolding out using ldf lc ld by simp
  have nth: "out ! i = \<lparr>date = fst (?df ! i), cases = num_cell ?dt (j_cases (snd (?df ! i))),
                         new_cases = val (astype_int64 (clip_lower 0 (fillna 0 (d ! i))))\<rparr>"
    if "i < length out" for i
  proof -
    from that lout have i: "i < length data" by simp
    have "out ! i = \<lparr>date = map fst ?df ! i, cases = snd cases_col ! i,
                     new_cases = map (\<lambda>v. val (astype_int64 (clip_lower 0 (fillna 0 v)))) d ! i\<rparr>"
      unfolding out
      by (rule rows_nth [where n = "length data"]) (simp_all add: ldf lc ld i)
    then show ?thesis
      using i ldf ld by (simp add: ccol)
  qed
  from dd have "diff (?dt, map (\<lambda>x. num_cell ?dt (j_cases (snd x))) ?df) = Inr d"
    by (simp add: ccol)
  with r s hd hc ldf sdf sorted_sort_values [of "zip parsed data"] lout nth
  show ?thesis by blast
qed


lemma new_cases_first: "val (astype_int64 (clip_lower 0 (fillna 0 None))) = 0"
  by simp

lemma new_cases_missing:
  "a = None \<or> b = None \<Longrightarrow> val (astype_int64 (clip_lower 0 (fillna 0 (diff_cell a b)))) = 0"
  by (cases a; cases b) auto

lemma diff_cell_in_range:
  assumes "0 \<le> val x" "val x \<le> 9007199254740992" "0 \<le> val y" "val y \<le> 9007199254740992"
  shows "diff_cell (Some x) (Some y) = Some (F64 (val x - val y))"
proof (cases "\<exists>a b. x = I64 a \<and> y = I64 b")
  case True
  then obtain a b where xy: "x = I64 a" "y = I64 b" by blast
  with assms have "wrap64 (a - b) = a - b"
    by (intro wrap64_exact) simp_all
  moreover have "f64 (a - b) = a - b"
    using assms xy by (intro f64_exact) simp
  ultimately show ?thesis
    using xy by simp
next
  case False
  then have s: "diff_cell (Some x) (Some y) = Some (F64 (f64 (to_float x - to_float y)))"
    by (cases x; cases y) simp_all
  have "to_float x = val x" "to_float y = val y"
    using assms by (simp_all add: to_float_exact)
  moreover have "f64 (val x - val y) = val x - val y"
    using assms by (intro f64_exact) simp
  ultimately show ?thesis
    by (simp add: s)
qed

lemma new_cases_in_range:
  assumes "0 \<le> val x" "val x \<le> 9007199254740992" "0 \<le> val y" "val y \<le> 9007199254740992"
  shows "val (astype_int64 (clip_lower 0 (fillna 0 (diff_cell (Some x) (Some y)))))
           = max 0 (val x - val y)"
  using assms by (simp add: diff_cell_in_range [OF assms])

lemma timeseries_of_new_cases:
  fixes out :: "('ts::linorder) ts_row list"
  assumes "timeseries_of parse res = Inr out"
  shows "out \<noteq> [] \<and> new_cases (out ! 0) = 0
       \<and> (\<forall>i. 0 < i \<and> i < length out \<longrightarrow>
            new_cases (out ! i)
              = val (astype_int64 (clip_lower 0 (fillna 0
                  (diff_cell (cases (out ! i)) (cases (out ! (i - 1))))))))"
proof -
  from timeseries_of_Inr [OF assms] obtain s and data :: "json_obj list"
    and df :: "('ts option \<times> json_obj) list" and d where
    hc: "has_column j_cases data" and ldf: "length df = length data"
    and lout: "length out = length data"
    and dd: "diff (dtype_of j_cases data,
                 map (\<lambda>x. num_cell (dtype_of j_cases data) (j_cases (snd x))) df) = Inr d"
    and nth0: "\<forall>i<length out.
              out ! i = \<lparr>date = fst (df ! i),
                         cases = num_cell (dtype_of j_cases data) (j_cases (snd (df ! i))),
                         new_cases = val (astype_int64 (clip_lower 0 (fillna 0 (d ! i))))\<rparr>"
    by blast
  note nth = nth0 [rule_format]
  let ?cs = "map (\<lambda>x. num_cell (dtype_of j_cases data) (j_cases (snd x))) df"
  have lcs: "length ?cs = length out"
    using ldf lout by simp
  have cs: "?cs ! i = cases (out ! i)" if "i < length out" for i
    using that nth [OF that] ldf lout by simp
  from hc have "data \<noteq> []"
    by (auto simp: has_column_def)
  with lout have ne: "out \<noteq> []" by auto
  then have "?cs \<noteq> []" using lcs by auto
  with dd have "d ! 0 = None"
    by (rule diff_nth_0)
  then have first: "new_cases (out ! 0) = 0"
    using nth [of 0] ne by simp
  have later: "new_cases (out ! i)
              = val (astype_int64 (clip_lower 0 (fillna 0
                  (diff_cell (cases (out ! i)) (cases (out ! (i - 1)))))))"
    if "0 < i" "i < length out" for i
  proof -
    have "d ! i = diff_cell (?cs ! i) (?cs ! (i - 1))"
      using dd that lcs by (intro diff_nth) simp_all
    also have "\<dots> = diff_cell (cases (out ! i)) (cases (out ! (i - 1)))"
      using that cs [of i] cs [of "i - 1"] by simp
    finally show ?thesis
      using nth [OF that(2)] by simp
  qed
  with ne first show ?thesis by blast
qed


subsection \<open>The series the fetchers return\<close>

text \<open>The definitions that evaluate a time-series fetcher on a concrete network.\<close>

lemmas run_timeseries =
  fetch_national_timeseries_def fetch_state_timeseries_def and_then_def requests_get_def
  always_def ok_def getitem_def getitem_num_def has_column_def dtype_of_def obj_point_def
  iso_date_def digit_def Let_def wrap64_exact f64_exact f64_above_2p53

text \<open>
  C2, as the code has it. In every series that \<^verbatim>\<open>fetch_national_timeseries\<close> or
  \<^verbatim>\<open>fetch_state_timeseries\<close> returns, the first point has \<open>new_cases = 0\<close>; a later point has
  \<open>new_cases = 0\<close> where its count or the count before it is missing, and
  \<open>new_cases = max 0 (cases[i] - cases[i-1])\<close>, which is not negative, where both counts lie
  between \<open>0\<close> and \<open>2 ^ 53\<close>. The difference is a \<^verbatim>\<open>float64\<close>, so beyond that range it is a
  rounded one, and the cast to integer comes after the clipping, so it is not bound to the
  clipped range.
\<close>

theorem timeseries_new_cases:
  fixes out :: "('ts::linorder) ts_row list"
  assumes "fetch_national_timeseries parse net days = Inr out
         \<or> fetch_state_timeseries parse net state_name days = Inr out"
  shows "out \<noteq> [] \<and> new_cases (out ! 0) = 0
       \<and> (\<forall>i. 0 < i \<and> i < length out \<and>
              (cases (out ! i) = None \<or> cases (out ! (i - 1)) = None)
            \<longrightarrow> new_cases (out ! i) = 0)
       \<and> (\<forall>i x y. 0 < i \<and> i < length out \<and>
              cases (out ! i) = Some x \<and> cases (out ! (i - 1)) = Some y \<and>
              0 \<le> val x \<and> val x \<le> 9007199254740992 \<and>
              0 \<le> val y \<and> val y \<le> 9007199254740992
            \<longrightarrow> new_cases (out ! i) = max 0 (val x - val y) \<and> 0 \<le> new_cases (out ! i))"
proof -
  from assms have "timeseries_of parse (net (national_url days)) = Inr out
                 \<or> timeseries_of parse (net (state_url state_name days)) = Inr out"
    unfolding fetch_national_timeseries_eq fetch_state_timeseries_eq .
  then have h: "out \<noteq> [] \<and> new_cases (out ! 0) = 0
       \<and> (\<forall>i. 0 < i \<and> i < length out \<longrightarrow>
            new_cases (out ! i)
              = val (astype_int64 (clip_lower 0 (fillna 0
                  (diff_cell (cases (out ! i)) (cases (out ! (i - 1))))))))"
    by (elim disjE) (rule timeseries_of_new_cases, assumption)+
  then have later: "new_cases (out ! i)
              = val (astype_int64 (clip_lower 0 (fillna 0
                  (diff_cell (cases (out ! i)) (cases (out ! (i - 1)))))))"
    if "0 < i" "i < length out" for i
    using that by blast
  have missing: "new_cases (out ! i) = 0"
    if "0 < i" "i < length out" "cases (out ! i) = None \<or> cases (out ! (i - 1)) = None" for i
    using later [OF that(1,2)] new_cases_missing [OF that(3)] by simp
  have in_range: "new_cases (out ! i) = max 0 (val x - val y) \<and> 0 \<le> new_cases (out ! i)"
    if "0 < i" "i < length out" "cases (out ! i) = Some x" "cases (out ! (i - 1)) = Some y"
      "0 \<le> val x" "val x \<le> 9007199254740992" "0 \<le> val y" "val y \<le> 9007199254740992"
    for i x y
    using later [OF that(1,2)] new_cases_in_range [OF that(5-8)] that(3,4) by simp
  from h missing in_range show ?thesis by blast
qed

theorem timeseries_new_cases_witness:
  "fetch_state_timeseries iso_date
     (always (ok [obj_point ''2020-01-01'' (Val 10), obj_point ''2020-01-02'' (Val 10),
                  obj_point ''2020-01-03'' (Val 25), obj_point ''2020-01-04'' (Val 20)]))
     ''Texas'' 180
   = Inr [\<lparr>date = Some 20200101, cases = Some (I64 10), new_cases = 0\<rparr>,
          \<lparr>date = Some 20200102, cases = Some (I64 10), new_cases = 0\<rparr>,
          \<lparr>date = Some 20200103, cases = Some (I64 25), new_cases = 15\<rparr>,
          \<lparr>date = Some 20200104, cases = Some (I64 20), new_cases = 0\<rparr>]
   \<and> max 0 (val (I64 25) - val (I64 10)) = 15"
proof -
  let ?net = "always (ok [obj_point ''2020-01-01'' (Val 10), obj_point ''2020-01-02'' (Val 10),
                  obj_point ''2020-01-03'' (Val 25), obj_point ''2020-01-04'' (Val 20)])"
  let ?out = "[\<lparr>date = Some (20200101::nat), cases = Some (I64 10), new_cases = 0\<rparr>,
          \<lparr>date = Some 20200102, cases = Some (I64 10), new_cases = 0\<rparr>,
          \<lparr>date = Some 20200103, cases = Some (I64 25), new_cases = 15\<rparr>,
          \<lparr>date = Some 20200104, cases = Some (I64 20), new_cases = 0\<rparr>]"
  have h: "fetch_state_timeseries iso_date ?net ''Texas'' 180 = Inr ?out"
    by (simp add: run_timeseries)
  then have "fetch_national_timeseries iso_date ?net 180 = Inr ?out
           \<or> fetch_state_timeseries iso_date ?net ''Texas'' 180 = Inr ?out"
    by (rule disjI2)
  from timeseries_new_cases [OF this]
  have "\<forall>i x y. 0 < i \<and> i < length ?out \<and>
              cases (?out ! i) = Some x \<and> cases (?out ! (i - 1)) = Some y \<and>
              0 \<le> val x \<and> val x \<le> 9007199254740992 \<and>
              0 \<le> val y \<and> val y \<le> 9007199254740992
            \<longrightarrow> new_cases (?out ! i) = max 0 (val x - val y) \<and> 0 \<le> new_cases (?out ! i)"
    by blast
  from this [rule_format, of 2 "I64 25" "I64 10"]
  have "max 0 (val (I64 25) - val (I64 10)) = 15"
    by simp
  then show ?thesis using h by simp
qed

text \<open>
  C2 as stated fails beyond \<open>2 ^ 53\<close>: the counts \<open>0\<close> and \<open>2 ^ 53 + 1\<close> differ by
  \<open>2 ^ 53 + 1\<close>, which \<^verbatim>\<open>diff()\<close> stores as the \<^verbatim>\<open>float64\<close> \<open>2 ^ 53\<close>, and that is the
  \<open>new_cases\<close> returned.
\<close>

theorem timeseries_float_rounding_counterexample:
  "fetch_national_timeseries iso_date
     (always (ok [obj_point ''2020-01-01'' (Val 0),
                  obj_point ''2020-01-02'' (Val 9007199254740993)])) 30
   = Inr [\<lparr>date = Some 20200101, cases = Some (I64 0), new_cases = 0\<rparr>,
          \<lparr>date = Some 20200102, cases = Some (I64 9007199254740993),
             new_cases = 9007199254740992\<rparr>]
   \<and> max 0 (9007199254740993 - 0) = (9007199254740993 :: int)"
  by (simp add: run_timeseries)

text \<open>
  The cast to integer follows the clipping and can leave the clipped range: the counts \<open>0\<close>
  and \<open>2 ^ 63 - 1\<close> differ by \<open>2 ^ 63 - 1\<close>, which \<^verbatim>\<open>diff()\<close> stores as the \<^verbatim>\<open>float64\<close>
  \<open>2 ^ 63\<close>; that is outside \<^verbatim>\<open>int64\<close> and is cast to \<open>- 2 ^ 63\<close>.
\<close>

lemma timeseries_cast_after_clip:
  "fetch_national_timeseries iso_date
     (always (ok [obj_point ''2020-01-01'' (Val 0),
                  obj_point ''2020-01-02'' (Val 9223372036854775807)])) 30
   = Inr [\<lparr>date = Some 20200101, cases = Some (I64 0), new_cases = 0\<rparr>,
          \<lparr>date = Some 20200102, cases = Some (I64 9223372036854775807),
             new_cases = - 9223372036854775808\<rparr>]"
  by (simp add: run_timeseries f64_max_int64)






text \<open>
  Nor is a payload of several points enough: when every count of cases is \<^verbatim>\<open>null\<close> the column
  holds \<^verbatim>\<open>None\<close> objects and \<^verbatim>\<open>diff()\<close> raises \<^verbatim>\<open>TypeError\<close>.
\<close>

lemma state_timeseries_null_counts_raise:
  "fetch_state_timeseries iso_date
     (always (ok [obj_point ''2020-01-01'' Null, obj_point ''2020-01-02'' Null])) ''Texas'' 365
   = Inl TypeError"
  by (simp add: run_timeseries)

text \<open>
  C10. The two time-series fetchers request different URLs and compute the same series from
  the same outcome of the request: when the network gives both requests the same answer,
  both calls return the same result, error or series.
\<close>

theorem timeseries_same_transformation:
  assumes "net (national_url days) = net (state_url state_name days')"
  shows "fetch_national_timeseries parse net days
           = fetch_state_timeseries parse net state_name days'
       \<and> national_url days \<noteq> state_url state_name days'"
  using assms
  by (simp add: fetch_national_timeseries_def fetch_state_timeseries_def requests_get_def
      national_url_def state_url_def)

theorem timeseries_same_transformation_witness:
  "fetch_national_timeseries iso_date
     (always (ok [obj_point ''2020-01-02'' (Val 12), obj_point ''2020-01-01'' (Val 10)])) 180
   = fetch_state_timeseries iso_date
     (always (ok [obj_point ''2020-01-02'' (Val 12), obj_point ''2020-01-01'' (Val 10)])) ''Ohio'' 90
   \<and> fetch_national_timeseries iso_date
     (always (ok [obj_point ''2020-01-02'' (Val 12), obj_point ''2020-01-01'' (Val 10)])) 180
   = Inr [\<lparr>date = Some 20200101, cases = Some (I64 10), new_cases = 0\<rparr>,
          \<lparr>date = Some 20200102, cases = Some (I64 12), new_cases = 2\<rparr>]"
proof -
  let ?net = "always (ok [obj_point ''2020-01-02'' (Val 12), obj_point ''2020-01-01'' (Val 10)])"
  have "?net (national_url 180) = ?net (state_url ''Ohio'' 90)"
    by (simp add: always_def)
  from timeseries_same_transformation [OF this, of iso_date]
  have "fetch_national_timeseries iso_date ?net 180 = fetch_state_timeseries iso_date ?net ''Ohio'' 90"
    by blast
  moreover have "fetch_national_timeseries iso_date ?net 180
       = Inr [\<lparr>date = Some 20200101, cases = Some (I64 10), new_cases = 0\<rparr>,
          \<lparr>date = Some 20200102, cases = Some (I64 12), new_cases = 2\<rparr>]"
    by (simp add: run_timeseries)
  ultimately show ?thesis by blast
qed

end
